theory Spec2Isabelle
  imports Main "HOL-Library.Word" "HOL-Library.AList" "HOL-Library.Sublist"
begin

section \<open>Levels (level.go)\<close>

text \<open>
  \<^verbatim>\<open>type Level int8\<close>: a level is any signed 8-bit value, of which five are named.
  Comparisons between levels are signed (\<open><s\<close>).
\<close>

type_synonym Level = "8 word"

definition DebugLevel :: Level where "DebugLevel = 0"
definition InfoLevel :: Level where "InfoLevel = 1"
definition WarnLevel :: Level where "WarnLevel = 2"
definition ErrorLevel :: Level where "ErrorLevel = 3"
definition FatalLevel :: Level where "FatalLevel = 4"

definition levelNames :: "(Level \<times> string) list" where
  "levelNames =
     [(DebugLevel, ''debug''), (InfoLevel, ''info''), (WarnLevel, ''warn''),
      (ErrorLevel, ''error''), (FatalLevel, ''fatal'')]"

text \<open>\<^verbatim>\<open>func (l Level) String() string\<close>\<close>

definition Level_String :: "Level \<Rightarrow> string" where
  "Level_String l = (case map_of levelNames l of Some name \<Rightarrow> name | None \<Rightarrow> ''unknown'')"

text \<open>\<^verbatim>\<open>func ParseLevel(levelStr string) Level\<close>: the switch, case by case.\<close>

definition ParseLevel :: "string \<Rightarrow> Level" where
  "ParseLevel levelStr =
     (if levelStr = ''debug'' then DebugLevel
      else if levelStr = ''info'' then InfoLevel
      else if levelStr = ''warn'' then WarnLevel
      else if levelStr = ''error'' then ErrorLevel
      else if levelStr = ''fatal'' then FatalLevel
      else InfoLevel)"

section \<open>Values and maps\<close>

text \<open>
  The values an \<^verbatim>\<open>interface{}\<close> field can hold, as far as the logger tells them apart:
  the typed setters store strings, ints, booleans, durations (an int64 count of
  nanoseconds) and times; \<^verbatim>\<open>Any\<close> and \<^verbatim>\<open>With\<close> accept every Go value, among them
  \<^verbatim>\<open>nil\<close> and the values \<^verbatim>\<open>encoding/json\<close> refuses to encode (channels, functions,
  complex numbers), for which \<open>VChan\<close> stands.
\<close>

type_synonym go_Time = nat

datatype gval =
    VString string
  | VInt "64 word"
  | VBool bool
  | VDuration "64 word"
  | VTime go_Time
  | VNil
  | VChan

text \<open>
  A \<^verbatim>\<open>map[string]interface{}\<close> is an association list with pairwise distinct keys.
  The list order stands for the order in which the runtime happens to iterate the map,
  which Go leaves unspecified; \<^verbatim>\<open>m[k] = v\<close> is \<^const>\<open>AList.update\<close> and a lookup is
  \<^const>\<open>map_of\<close>.
\<close>

type_synonym gomap = "(string \<times> gval) list"

definition is_gomap :: "gomap \<Rightarrow> bool" where
  "is_gomap m = distinct (map fst m)"

text \<open>\<^verbatim>\<open>for k, v := range src { dst[k] = v }\<close>\<close>

fun copyInto :: "gomap \<Rightarrow> gomap \<Rightarrow> gomap" where
  "copyInto [] dst = dst"
| "copyInto ((k, v) # src) dst = copyInto src (AList.update k v dst)"

section \<open>The environment\<close>

text \<open>
  What the logger calls outside this repository: \<^verbatim>\<open>time.Time.Format\<close> and
  \<^verbatim>\<open>time.Time.Year\<close>, the bytes \<^verbatim>\<open>json.Marshal\<close> produces for an encodable entry
  and the text of the error it returns for another, and the sink's \<^verbatim>\<open>Write\<close>
  (\<open>Some err\<close> when it returns an error). They are parameters of the model.
\<close>

datatype io_Writer = os_Stdout | Sink nat

record env =
  time_Format :: "go_Time \<Rightarrow> string \<Rightarrow> string"
  time_Year :: "go_Time \<Rightarrow> int"
  json_bytes :: "gomap \<Rightarrow> string"
  json_error :: "gomap \<Rightarrow> string"
  io_Write :: "io_Writer \<Rightarrow> string \<Rightarrow> string option"

definition time_RFC3339 :: string where
  "time_RFC3339 = ''2006-01-02T15:04:05Z07:00''"

text \<open>
  Which values \<^verbatim>\<open>encoding/json\<close> encodes: not a channel (\<^verbatim>\<open>UnsupportedTypeError\<close>),
  and a \<^verbatim>\<open>time.Time\<close> only when its year is within 0..9999 (\<^verbatim>\<open>Time.MarshalJSON\<close>
  returns an error otherwise).
\<close>

fun encodable :: "env \<Rightarrow> gval \<Rightarrow> bool" where
  "encodable E VChan = False"
| "encodable E (VTime t) = (0 \<le> time_Year E t \<and> time_Year E t \<le> 9999)"
| "encodable E _ = True"

text \<open>
  \<^verbatim>\<open>json.Marshal(entry)\<close>: an error when a value cannot be encoded, the encoding
  otherwise.
\<close>

definition json_Marshal :: "env \<Rightarrow> gomap \<Rightarrow> string + string" where
  "json_Marshal E entry =
     (if list_all (\<lambda>(k, v). encodable E v) entry then Inr (json_bytes E entry)
      else Inl (json_error E entry))"

section \<open>Hooks (the Hook interface)\<close>

text \<open>
  A hook is an interface value: \<open>hook_type\<close> is its dynamic type, \<open>hook_comparable\<close>
  says whether that type is comparable (a pointer is, a struct holding a slice is not),
  and \<open>hook_id\<close> is its value (the address, for a pointer). \<open>Levels\<close> is its
  subscription list. \<open>Fire\<close> receives the entry map by reference, so it returns the map
  as the hook left it, with its error.
\<close>

record Hook =
  hook_type :: nat
  hook_comparable :: bool
  hook_id :: nat
  Levels :: "Level list"
  Fire :: "gomap \<Rightarrow> gomap \<times> string option"

text \<open>
  \<^verbatim>\<open>h == hook\<close> on interface values: false for different dynamic types, a run-time
  panic (\<open>None\<close>) for one and the same uncomparable type, the comparison of the values
  otherwise. Whether a type is comparable is read from the left operand: both have the
  same type where it matters.
\<close>

definition Hook_eq :: "Hook \<Rightarrow> Hook \<Rightarrow> bool option" where
  "Hook_eq h hook =
     (if hook_type h = hook_type hook
      then (if hook_comparable h then Some (hook_id h = hook_id hook) else None)
      else Some False)"

section \<open>Logger and Event (logger.go, event.go)\<close>

record Logger =
  writer :: io_Writer
  level :: Level
  timeFormat :: string
  contextFields :: gomap
  hooks :: "Hook list"

record Options =
  Writer :: "io_Writer option"
  Level :: Level
  TimeFormat :: string

text \<open>
  Loggers are heap objects handled through \<^verbatim>\<open>*Logger\<close>: the heap is the list of all
  loggers allocated so far and a pointer is an index into it. Dereferencing a pointer that
  is not allocated is a panic (\<open>None\<close>). The mutex is left out: the model is sequential.
\<close>

type_synonym heap = "Logger list"

definition deref :: "heap \<Rightarrow> nat \<Rightarrow> Logger option" where
  "deref h l = (if l < length h then Some (h ! l) else None)"

text \<open>
  An \<^verbatim>\<open>*Event\<close> is \<open>None\<close> for the nil pointer. The struct fields \<^verbatim>\<open>level\<close>, \<^verbatim>\<open>fields\<close> and
  \<^verbatim>\<open>time\<close> are \<open>elevel\<close>, \<open>efields\<close> and \<open>etime\<close> here (the Logger record has \<open>level\<close>).
\<close>

record Event =
  logger :: nat
  elevel :: Level
  efields :: gomap
  etime :: go_Time

definition DefaultOptions :: Options where
  "DefaultOptions = \<lparr>Writer = Some os_Stdout, Level = InfoLevel, TimeFormat = time_RFC3339\<rparr>"

text \<open>\<^verbatim>\<open>func New(opts Options) *Logger\<close>: the new heap and the pointer.\<close>

definition New :: "heap \<Rightarrow> Options \<Rightarrow> heap \<times> nat" where
  "New h opts =
     (let w = (case Writer opts of None \<Rightarrow> os_Stdout | Some w \<Rightarrow> w);
          tf = (if TimeFormat opts = [] then time_RFC3339 else TimeFormat opts)
      in (h @ [\<lparr>writer = w, level = Level opts, timeFormat = tf,
                contextFields = [], hooks = []\<rparr>], length h))"

definition NewConsoleLogger :: "heap \<Rightarrow> heap \<times> nat" where
  "NewConsoleLogger h = New h DefaultOptions"

definition Logger_SetLevel :: "heap \<Rightarrow> nat \<Rightarrow> Level \<Rightarrow> heap option" where
  "Logger_SetLevel h l lv =
     (case deref h l of None \<Rightarrow> None
      | Some lg \<Rightarrow> Some (h[l := lg\<lparr>level := lv\<rparr>]))"

definition Logger_GetLevel :: "heap \<Rightarrow> nat \<Rightarrow> Level option" where
  "Logger_GetLevel h l = (case deref h l of None \<Rightarrow> None | Some lg \<Rightarrow> Some (level lg))"


text \<open>
  \<^verbatim>\<open>func (l *Logger) newEvent(level Level) *Event\<close>; \<open>now\<close> is what \<^verbatim>\<open>time.Now()\<close>
  returns. The outer \<open>None\<close> is the panic of a bad receiver, the inner one the nil event.
\<close>

definition Logger_newEvent :: "heap \<Rightarrow> nat \<Rightarrow> Level \<Rightarrow> go_Time \<Rightarrow> Event option option" where
  "Logger_newEvent h l lv now =
     (case deref h l of None \<Rightarrow> None
      | Some lg \<Rightarrow>
          Some (if lv <s level lg then None
                else Some \<lparr>logger = l, elevel = lv,
                           efields = copyInto (contextFields lg) [], etime = now\<rparr>))"

definition Logger_Debug :: "heap \<Rightarrow> nat \<Rightarrow> go_Time \<Rightarrow> Event option option" where
  "Logger_Debug h l now = Logger_newEvent h l DebugLevel now"

definition Logger_Info :: "heap \<Rightarrow> nat \<Rightarrow> go_Time \<Rightarrow> Event option option" where
  "Logger_Info h l now = Logger_newEvent h l InfoLevel now"

definition Logger_Warn :: "heap \<Rightarrow> nat \<Rightarrow> go_Time \<Rightarrow> Event option option" where
  "Logger_Warn h l now = Logger_newEvent h l WarnLevel now"

definition Logger_Error :: "heap \<Rightarrow> nat \<Rightarrow> go_Time \<Rightarrow> Event option option" where
  "Logger_Error h l now = Logger_newEvent h l ErrorLevel now"

definition Logger_Fatal :: "heap \<Rightarrow> nat \<Rightarrow> go_Time \<Rightarrow> Event option option" where
  "Logger_Fatal h l now = Logger_newEvent h l FatalLevel now"

text \<open>\<^verbatim>\<open>AddHook\<close> and \<^verbatim>\<open>RemoveHook\<close> update the logger in place and return the receiver.\<close>

definition Logger_AddHook :: "heap \<Rightarrow> nat \<Rightarrow> Hook \<Rightarrow> (heap \<times> nat) option" where
  "Logger_AddHook h l hook =
     (case deref h l of None \<Rightarrow> None
      | Some lg \<Rightarrow> Some (h[l := lg\<lparr>hooks := hooks lg @ [hook]\<rparr>], l))"

text \<open>
  The loop of \<^verbatim>\<open>RemoveHook\<close>: drop the first hook equal to \<open>hook\<close>, then \<^verbatim>\<open>break\<close>.
  A comparison that panics ends the loop with \<open>None\<close>, before any assignment to
  \<^verbatim>\<open>l.hooks\<close>.
\<close>

fun removeFirst :: "Hook \<Rightarrow> Hook list \<Rightarrow> Hook list option" where
  "removeFirst hook [] = Some []"
| "removeFirst hook (h # hs) =
     (case Hook_eq h hook of
        None \<Rightarrow> None
      | Some True \<Rightarrow> Some hs
      | Some False \<Rightarrow> (case removeFirst hook hs of None \<Rightarrow> None | Some hs' \<Rightarrow> Some (h # hs')))"

text \<open>
  \<^verbatim>\<open>RemoveHook\<close> panics (\<open>None\<close>) on a receiver that is not allocated and when the
  comparison panics; the heap is then as it was.
\<close>

definition Logger_RemoveHook :: "heap \<Rightarrow> nat \<Rightarrow> Hook \<Rightarrow> (heap \<times> nat) option" where
  "Logger_RemoveHook h l hook =
     (case deref h l of None \<Rightarrow> None
      | Some lg \<Rightarrow>
          (case removeFirst hook (hooks lg) of None \<Rightarrow> None
           | Some hs \<Rightarrow> Some (h[l := lg\<lparr>hooks := hs\<rparr>], l)))"

subsection \<open>Field setters\<close>

definition Event_Str :: "Event option \<Rightarrow> string \<Rightarrow> string \<Rightarrow> Event option" where
  "Event_Str e key val =
     (case e of None \<Rightarrow> None
      | Some ev \<Rightarrow> Some (ev\<lparr>efields := AList.update key (VString val) (efields ev)\<rparr>))"

definition Event_Int :: "Event option \<Rightarrow> string \<Rightarrow> 64 word \<Rightarrow> Event option" where
  "Event_Int e key val =
     (case e of None \<Rightarrow> None
      | Some ev \<Rightarrow> Some (ev\<lparr>efields := AList.update key (VInt val) (efields ev)\<rparr>))"

definition Event_Bool :: "Event option \<Rightarrow> string \<Rightarrow> bool \<Rightarrow> Event option" where
  "Event_Bool e key val =
     (case e of None \<Rightarrow> None
      | Some ev \<Rightarrow> Some (ev\<lparr>efields := AList.update key (VBool val) (efields ev)\<rparr>))"

text \<open>An \<^verbatim>\<open>error\<close> is \<open>None\<close> for nil and \<open>Some text\<close> for an error whose \<^verbatim>\<open>Error()\<close> is \<open>text\<close>.\<close>

definition Event_Err :: "Event option \<Rightarrow> string option \<Rightarrow> Event option" where
  "Event_Err e err =
     (case e of None \<Rightarrow> None
      | Some ev \<Rightarrow>
          (case err of None \<Rightarrow> Some ev
           | Some text \<Rightarrow> Some (ev\<lparr>efields := AList.update ''error'' (VString text) (efields ev)\<rparr>)))"

definition Event_Any :: "Event option \<Rightarrow> string \<Rightarrow> gval \<Rightarrow> Event option" where
  "Event_Any e key val =
     (case e of None \<Rightarrow> None
      | Some ev \<Rightarrow> Some (ev\<lparr>efields := AList.update key val (efields ev)\<rparr>))"

definition Event_Duration :: "Event option \<Rightarrow> string \<Rightarrow> 64 word \<Rightarrow> Event option" where
  "Event_Duration e key val =
     (case e of None \<Rightarrow> None
      | Some ev \<Rightarrow> Some (ev\<lparr>efields := AList.update key (VDuration val) (efields ev)\<rparr>))"

definition Event_Time :: "Event option \<Rightarrow> string \<Rightarrow> go_Time \<Rightarrow> Event option" where
  "Event_Time e key val =
     (case e of None \<Rightarrow> None
      | Some ev \<Rightarrow> Some (ev\<lparr>efields := AList.update key (VTime val) (efields ev)\<rparr>))"

text \<open>\<^verbatim>\<open>fmt.Sprintf("%x", val)\<close> on a byte slice: two lowercase hex digits for each byte.\<close>

definition hexdigit :: "nat \<Rightarrow> char" where
  "hexdigit n = ''0123456789abcdef'' ! (n mod 16)"

definition Sprintf_x :: "8 word list \<Rightarrow> string" where
  "Sprintf_x val = concat (map (\<lambda>b. [hexdigit (unat b div 16), hexdigit (unat b mod 16)]) val)"

definition Event_Hex :: "Event option \<Rightarrow> string \<Rightarrow> 8 word list \<Rightarrow> Event option" where
  "Event_Hex e key val =
     (case e of None \<Rightarrow> None
      | Some ev \<Rightarrow> Some (ev\<lparr>efields := AList.update key (VString (Sprintf_x val)) (efields ev)\<rparr>))"

text \<open>
  A fluent chain \<^verbatim>\<open>e.Str(..).Int(..)...\<close> is a list of setter calls applied from the
  left; \<open>setter_key\<close> is the field a call stores, if it stores one, and \<open>setter_val\<close>
  the value it stores there.
\<close>

datatype setter =
    SStr string string
  | SInt string "64 word"
  | SBool string bool
  | SErr "string option"
  | SAny string gval
  | SDuration string "64 word"
  | STime string go_Time
  | SHex string "8 word list"

fun apply_setter :: "Event option \<Rightarrow> setter \<Rightarrow> Event option" where
  "apply_setter e (SStr key val) = Event_Str e key val"
| "apply_setter e (SInt key val) = Event_Int e key val"
| "apply_setter e (SBool key val) = Event_Bool e key val"
| "apply_setter e (SErr err) = Event_Err e err"
| "apply_setter e (SAny key val) = Event_Any e key val"
| "apply_setter e (SDuration key val) = Event_Duration e key val"
| "apply_setter e (STime key val) = Event_Time e key val"
| "apply_setter e (SHex key val) = Event_Hex e key val"

fun setter_key :: "setter \<Rightarrow> string option" where
  "setter_key (SStr key val) = Some key"
| "setter_key (SInt key val) = Some key"
| "setter_key (SBool key val) = Some key"
| "setter_key (SErr None) = None"
| "setter_key (SErr (Some text)) = Some ''error''"
| "setter_key (SAny key val) = Some key"
| "setter_key (SDuration key val) = Some key"
| "setter_key (STime key val) = Some key"
| "setter_key (SHex key val) = Some key"


definition chain :: "Event option \<Rightarrow> setter list \<Rightarrow> Event option" where
  "chain e calls = foldl apply_setter e calls"

subsection \<open>Emission\<close>

text \<open>
  What \<^verbatim>\<open>Msg\<close> does to the outside, in order: a \<^verbatim>\<open>Write\<close> on a sink, a line on
  standard error, a call of a hook's \<^verbatim>\<open>Fire\<close> (with the entry it receives),
  \<^verbatim>\<open>os.Exit\<close>, or a panic.
\<close>

datatype effect =
    EWrite io_Writer string
  | EStderr string
  | EFire nat gomap
  | EExit nat
  | EPanic

text \<open>The inner loop of the dispatch: is the event's level among \<^verbatim>\<open>hook.Levels()\<close>?\<close>

fun shouldFire :: "Level \<Rightarrow> Level list \<Rightarrow> bool" where
  "shouldFire lv [] = False"
| "shouldFire lv (x # xs) = (if x = lv then True else shouldFire lv xs)"

text \<open>The outer loop, \<^verbatim>\<open>for _, hook := range e.logger.hooks\<close>.\<close>

fun fireHooks :: "Level \<Rightarrow> Hook list \<Rightarrow> gomap \<Rightarrow> effect list" where
  "fireHooks lv [] entry = []"
| "fireHooks lv (hook # hs) entry =
     (if shouldFire lv (Levels hook) then
        (case Fire hook entry of
           (entry', None) \<Rightarrow> EFire (hook_id hook) entry # fireHooks lv hs entry'
         | (entry', Some err) \<Rightarrow>
             EFire (hook_id hook) entry # EStderr (''Error firing hook: '' @ err @ [CHR 0x0A])
               # fireHooks lv hs entry')
      else fireHooks lv hs entry)"

text \<open>
  The entry \<^verbatim>\<open>Msg\<close> builds: the map literal with the three keys, then the loop that
  stores every field of the event into it.
\<close>

definition Msg_entry :: "env \<Rightarrow> Logger \<Rightarrow> Event \<Rightarrow> string \<Rightarrow> gomap" where
  "Msg_entry E lg ev msg =
     copyInto (efields ev)
       [(''level'', VString (Level_String (elevel ev))),
        (''time'', VString (time_Format E (etime ev) (timeFormat lg))),
        (''message'', VString msg)]"

text \<open>\<^verbatim>\<open>func (e *Event) Msg(msg string)\<close>, on the heap as it is when \<^verbatim>\<open>Msg\<close> is called.\<close>

definition Event_Msg :: "env \<Rightarrow> heap \<Rightarrow> Event option \<Rightarrow> string \<Rightarrow> effect list" where
  "Event_Msg E h e msg =
     (case e of None \<Rightarrow> []
      | Some ev \<Rightarrow>
          (case deref h (logger ev) of None \<Rightarrow> [EPanic]
           | Some lg \<Rightarrow>
               (let entry = Msg_entry E lg ev msg in
                case json_Marshal E entry of
                  Inl err \<Rightarrow> [EStderr (''Error marshaling log entry: '' @ err @ [CHR 0x0A])]
                | Inr jsonData \<Rightarrow>
                    (let line = jsonData @ [CHR 0x0A] in
                     EWrite (writer lg) line
                       # (case io_Write E (writer lg) line of None \<Rightarrow> []
                          | Some err \<Rightarrow> [EStderr (''Error writing log entry: '' @ err @ [CHR 0x0A])])
                       @ fireHooks (elevel ev) (hooks lg) entry
                       @ (if elevel ev = FatalLevel then [EExit 1] else [])))))"

text \<open>Reading a trace: the lines handed to the sinks, and the hooks fired, in order.\<close>

fun written :: "effect list \<Rightarrow> string list" where
  "written [] = []"
| "written (EWrite w line # tr) = line # written tr"
| "written (x # tr) = written tr"

fun fired :: "effect list \<Rightarrow> nat list" where
  "fired [] = []"
| "fired (EFire i entry # tr) = i # fired tr"
| "fired (x # tr) = fired tr"

section \<open>NatsHook (natsHook.go)\<close>

text \<open>
  \<^verbatim>\<open>strings.Replace(s, old, new, -1)\<close>: every non-overlapping occurrence of \<open>old\<close>,
  from the left. For an empty \<open>old\<close> Go inserts \<open>new\<close> before every character and at the
  end.
\<close>

fun replaceFrom :: "string \<Rightarrow> string \<Rightarrow> string \<Rightarrow> string" where
  "replaceFrom [] old new = []"
| "replaceFrom (c # cs) old new =
     (if prefix old (c # cs) then new @ replaceFrom (drop (length old - 1) cs) old new
      else c # replaceFrom cs old new)"

definition strings_Replace :: "string \<Rightarrow> string \<Rightarrow> string \<Rightarrow> string" where
  "strings_Replace s old new =
     (if old = [] then new @ concat (map (\<lambda>c. c # new) s) else replaceFrom s old new)"

text \<open>\<^verbatim>\<open>Publish(subject, data)\<close> of the connection: \<open>Some err\<close> for an error.\<close>

type_synonym NatsConn = "string \<Rightarrow> string \<Rightarrow> string option"

record NatsHook =
  conn :: NatsConn
  subject :: string
  levels :: "Level list"


text \<open>
  The substitution loop of \<^verbatim>\<open>Fire\<close>, \<^verbatim>\<open>for key, value := range entry\<close>: the entry is
  visited in its iteration order, and every string value rewrites the subject so far.
\<close>

fun substitute :: "string \<Rightarrow> gomap \<Rightarrow> string" where
  "substitute subj [] = subj"
| "substitute subj ((key, VString strValue) # entry) =
     substitute (strings_Replace subj (''{'' @ key @ ''}'') strValue) entry"
| "substitute subj ((key, val) # entry) = substitute subj entry"


definition NatsHook_Levels :: "NatsHook \<Rightarrow> Level list" where
  "NatsHook_Levels hk = levels hk"

section \<open>Sample values\<close>

text \<open>
  A concrete environment for evaluating the model: every time formats as \<open>T\<close> and has
  the year it is numbered with, the encoder writes \<open>{}\<close> or reports an unsupported type,
  and every sink accepts what it is given.
\<close>

definition sample_env :: env where
  "sample_env =
     \<lparr>time_Format = (\<lambda>t layout. ''T''), time_Year = (\<lambda>t. int t),
      json_bytes = (\<lambda>entry. ''{}''),
      json_error = (\<lambda>entry. ''json: unsupported type: chan int''),
      io_Write = (\<lambda>w line. None)\<rparr>"

definition sample_logger :: "Level \<Rightarrow> gomap \<Rightarrow> Hook list \<Rightarrow> Logger" where
  "sample_logger lv ctx hs =
     \<lparr>writer = Sink 0, level = lv, timeFormat = time_RFC3339, contextFields = ctx, hooks = hs\<rparr>"

definition sample_hook :: "nat \<Rightarrow> Level list \<Rightarrow> Hook" where
  "sample_hook i lvs =
     \<lparr>hook_type = 0, hook_comparable = True, hook_id = i, Levels = lvs,
      Fire = (\<lambda>entry. (entry, None))\<rparr>"

text \<open>A hook held by value, of a struct type that is not comparable.\<close>

definition sample_struct_hook :: "nat \<Rightarrow> Level list \<Rightarrow> Hook" where
  "sample_struct_hook i lvs =
     \<lparr>hook_type = 1, hook_comparable = False, hook_id = i, Levels = lvs,
      Fire = (\<lambda>entry. (entry, None))\<rparr>"

definition sample_hooks :: "Hook list" where
  "sample_hooks = [sample_hook 1 [InfoLevel], sample_hook 2 [ErrorLevel],
                   sample_hook 3 [ErrorLevel, InfoLevel, InfoLevel]]"



section \<open>Levels: parsing and printing\<close>

lemmas Level_defs = DebugLevel_def InfoLevel_def WarnLevel_def ErrorLevel_def FatalLevel_def

lemma Level_String_names:
  "Level_String DebugLevel = ''debug''" "Level_String InfoLevel = ''info''"
  "Level_String WarnLevel = ''warn''" "Level_String ErrorLevel = ''error''"
  "Level_String FatalLevel = ''fatal''"
  by (simp_all add: Level_String_def levelNames_def Level_defs)

text \<open>
  C9. \<^verbatim>\<open>ParseLevel\<close> is total: the five lowercase names parse to their levels, every
  other string (the empty one, \<^verbatim>\<open>DEBUG\<close>, anything else) parses to Info, so the result
  is always one of the five named levels; and printing the parsed level gives back each
  of the five names.
\<close>

theorem ParseLevel_total:
  "ParseLevel ''debug'' = DebugLevel \<and> ParseLevel ''info'' = InfoLevel
   \<and> ParseLevel ''warn'' = WarnLevel \<and> ParseLevel ''error'' = ErrorLevel
   \<and> ParseLevel ''fatal'' = FatalLevel
   \<and> (s \<notin> {''debug'', ''info'', ''warn'', ''error'', ''fatal''} \<longrightarrow> ParseLevel s = InfoLevel)
   \<and> ParseLevel s \<in> {DebugLevel, InfoLevel, WarnLevel, ErrorLevel, FatalLevel}
   \<and> ParseLevel [] = InfoLevel \<and> ParseLevel ''DEBUG'' = InfoLevel
   \<and> (s \<in> {''debug'', ''info'', ''warn'', ''error'', ''fatal''} \<longrightarrow> Level_String (ParseLevel s) = s)"
  by (auto simp add: ParseLevel_def Level_String_names)

theorem ParseLevel_total_witness:
  "''garbage'' \<notin> {''debug'', ''info'', ''warn'', ''error'', ''fatal''}
   \<and> ParseLevel ''garbage'' = InfoLevel
   \<and> ''warn'' \<in> {''debug'', ''info'', ''warn'', ''error'', ''fatal''}
   \<and> Level_String (ParseLevel ''warn'') = ''warn''"
proof -
  have a: "''garbage'' \<notin> {''debug'', ''info'', ''warn'', ''error'', ''fatal''}" by simp
  have b: "''warn'' \<in> {''debug'', ''info'', ''warn'', ''error'', ''fatal''}" by simp
  from ParseLevel_total [of "''garbage''"] a have c: "ParseLevel ''garbage'' = InfoLevel" by blast
  from ParseLevel_total [of "''warn''"] b have d: "Level_String (ParseLevel ''warn'') = ''warn''" by blast
  from a b c d show ?thesis by blast
qed

section \<open>Maps and traces\<close>

lemma is_gomap_Nil: "is_gomap []"
  by (simp add: is_gomap_def)

lemma is_gomap_update: "is_gomap m \<Longrightarrow> is_gomap (AList.update k v m)"
  by (simp add: is_gomap_def distinct_update)

lemma is_gomap_copyInto: "is_gomap dst \<Longrightarrow> is_gomap (copyInto src dst)"
  by (induction src dst rule: copyInto.induct) (simp_all add: is_gomap_update)

lemma map_of_copyInto_miss:
  "k \<notin> fst ` set src \<Longrightarrow> map_of (copyInto src dst) k = map_of dst k"
  by (induction src dst rule: copyInto.induct) (auto simp add: update_conv')

lemma map_of_copyInto_hit:
  "distinct (map fst src) \<Longrightarrow> (k, v) \<in> set src \<Longrightarrow> map_of (copyInto src dst) k = Some v"
proof (induction src dst rule: copyInto.induct)
  case (1 dst)
  then show ?case by simp
next
  case (2 k' v' src dst)
  show ?case
  proof (cases "(k, v) = (k', v')")
    case True
    with 2 have "k \<notin> fst ` set src" by auto
    then have "map_of (copyInto src (AList.update k' v' dst)) k = map_of (AList.update k' v' dst) k"
      by (rule map_of_copyInto_miss)
    with True show ?thesis by (simp add: update_conv')
  next
    case False
    with 2 show ?thesis by auto
  qed
qed

lemma map_of_copyInto:
  assumes "is_gomap src"
  shows "map_of (copyInto src dst) k = (case map_of src k of Some v \<Rightarrow> Some v | None \<Rightarrow> map_of dst k)"
proof (cases "map_of src k")
  case None
  then have "k \<notin> fst ` set src" by (simp add: map_of_eq_None_iff)
  with None show ?thesis by (simp add: map_of_copyInto_miss)
next
  case (Some v)
  then have "(k, v) \<in> set src" by (rule map_of_SomeD)
  with assms Some show ?thesis by (simp add: map_of_copyInto_hit is_gomap_def)
qed




lemma written_append: "written (xs @ ys) = written xs @ written ys"
  by (induction xs rule: written.induct) simp_all

lemma fired_append: "fired (xs @ ys) = fired xs @ fired ys"
  by (induction xs rule: fired.induct) simp_all

section \<open>The shape of an emission\<close>

lemma fireHooks_no_exit: "EExit n \<notin> set (fireHooks lv hs entry)"
  by (induction lv hs entry rule: fireHooks.induct) (auto split: prod.splits option.splits)

lemma fireHooks_no_panic: "EPanic \<notin> set (fireHooks lv hs entry)"
  by (induction lv hs entry rule: fireHooks.induct) (auto split: prod.splits option.splits)

lemma fireHooks_written: "written (fireHooks lv hs entry) = []"
  by (induction lv hs entry rule: fireHooks.induct) (auto split: prod.splits option.splits)

lemma Event_Msg_nil: "Event_Msg E h None msg = []"
  by (simp add: Event_Msg_def)

lemma Event_Msg_panic: "deref h (logger ev) = None \<Longrightarrow> Event_Msg E h (Some ev) msg = [EPanic]"
  by (simp add: Event_Msg_def)

lemma Event_Msg_marshal_error:
  "deref h (logger ev) = Some lg \<Longrightarrow> json_Marshal E (Msg_entry E lg ev msg) = Inl err \<Longrightarrow>
     Event_Msg E h (Some ev) msg = [EStderr (''Error marshaling log entry: '' @ err @ [CHR 0x0A])]"
  by (simp add: Event_Msg_def)

lemma Event_Msg_emit:
  "deref h (logger ev) = Some lg \<Longrightarrow> json_Marshal E (Msg_entry E lg ev msg) = Inr jsonData \<Longrightarrow>
     Event_Msg E h (Some ev) msg =
       EWrite (writer lg) (jsonData @ [CHR 0x0A])
         # (case io_Write E (writer lg) (jsonData @ [CHR 0x0A]) of None \<Rightarrow> []
            | Some err \<Rightarrow> [EStderr (''Error writing log entry: '' @ err @ [CHR 0x0A])])
         @ fireHooks (elevel ev) (hooks lg) (Msg_entry E lg ev msg)
         @ (if elevel ev = FatalLevel then [EExit 1] else [])"
  by (simp add: Event_Msg_def Let_def)

lemma Event_Msg_exit:
  assumes "EExit n \<in> set (Event_Msg E h e msg)"
  shows "\<exists>ev. e = Some ev \<and> elevel ev = FatalLevel"
proof (cases e)
  case None
  with assms show ?thesis by (simp add: Event_Msg_nil)
next
  case (Some ev)
  show ?thesis
  proof (cases "deref h (logger ev)")
    case None
    with assms Some show ?thesis by (simp add: Event_Msg_panic)
  next
    case lg: (Some lg)
    show ?thesis
    proof (cases "json_Marshal E (Msg_entry E lg ev msg)")
      case (Inl err)
      with assms Some lg show ?thesis by (simp add: Event_Msg_marshal_error)
    next
      case (Inr jsonData)
      with assms Some lg show ?thesis
        by (auto simp add: Event_Msg_emit fireHooks_no_exit split: option.splits if_splits)
    qed
  qed
qed




lemma written_Event_Msg_emit:
  assumes "deref h (logger ev) = Some lg"
    and "json_Marshal E (Msg_entry E lg ev msg) = Inr jsonData"
  shows "written (Event_Msg E h (Some ev) msg) = [jsonData @ [CHR 0x0A]]"
  using assms
  by (simp add: Event_Msg_emit written_append fireHooks_written split: option.splits)


lemma reserved_entry_encodable:
  "json_Marshal E (Msg_entry E lg \<lparr>logger = l, elevel = lv, efields = [], etime = now\<rparr> msg)
     = Inr (json_bytes E [(''level'', VString (Level_String lv)),
                          (''time'', VString (time_Format E now (timeFormat lg))),
                          (''message'', VString msg)])"
  by (simp add: json_Marshal_def Msg_entry_def)


section \<open>Fluent chains\<close>

lemmas setter_defs = Event_Str_def Event_Int_def Event_Bool_def Event_Err_def Event_Any_def
  Event_Duration_def Event_Time_def Event_Hex_def

lemma apply_setter_nil: "apply_setter None c = None"
  by (cases c) (simp_all add: setter_defs)

lemma chain_nil: "chain None calls = None"
  by (induction calls) (simp_all add: chain_def apply_setter_nil)

lemma apply_setter_active:
  "\<exists>ev'. apply_setter (Some ev) c = Some ev' \<and> logger ev' = logger ev \<and> elevel ev' = elevel ev
     \<and> etime ev' = etime ev
     \<and> (is_gomap (efields ev) \<longrightarrow> is_gomap (efields ev'))
     \<and> (\<forall>k. setter_key c \<noteq> Some k \<longrightarrow> map_of (efields ev') k = map_of (efields ev) k)"
proof (cases c)
  case (SErr err)
  then show ?thesis
    by (cases err) (auto simp add: setter_defs is_gomap_update update_conv')
qed (auto simp add: setter_defs is_gomap_update update_conv')

lemma chain_active:
  "\<exists>ev'. chain (Some ev) calls = Some ev' \<and> logger ev' = logger ev \<and> elevel ev' = elevel ev
     \<and> etime ev' = etime ev
     \<and> (is_gomap (efields ev) \<longrightarrow> is_gomap (efields ev'))
     \<and> (\<forall>k. (\<forall>c \<in> set calls. setter_key c \<noteq> Some k) \<longrightarrow> map_of (efields ev') k = map_of (efields ev) k)"
proof (induction calls arbitrary: ev)
  case Nil
  then show ?case by (simp add: chain_def)
next
  case (Cons c calls)
  from apply_setter_active [of ev c] obtain ev1 where
    1: "apply_setter (Some ev) c = Some ev1" "logger ev1 = logger ev" "elevel ev1 = elevel ev"
       "etime ev1 = etime ev" "is_gomap (efields ev) \<longrightarrow> is_gomap (efields ev1)"
       "\<forall>k. setter_key c \<noteq> Some k \<longrightarrow> map_of (efields ev1) k = map_of (efields ev) k"
    by blast
  from Cons.IH [of ev1] obtain ev' where
    2: "chain (Some ev1) calls = Some ev'" "logger ev' = logger ev1" "elevel ev' = elevel ev1"
       "etime ev' = etime ev1" "is_gomap (efields ev1) \<longrightarrow> is_gomap (efields ev')"
       "\<forall>k. (\<forall>c \<in> set calls. setter_key c \<noteq> Some k) \<longrightarrow> map_of (efields ev') k = map_of (efields ev1) k"
    by blast
  from 1(1) 2(1) have "chain (Some ev) (c # calls) = Some ev'" by (simp add: chain_def)
  with 1 2 show ?case by auto
qed

lemma reachable_event_gomap:
  assumes "Logger_newEvent h l lv now = Some (Some ev)" and "chain (Some ev) calls = Some ev'"
  shows "is_gomap (efields ev')"
proof -
  from assms(1) have "is_gomap (efields ev)"
    by (auto simp add: Logger_newEvent_def is_gomap_copyInto is_gomap_Nil
        split: option.splits if_splits)
  with chain_active [of ev calls] assms(2) show ?thesis by auto
qed

section \<open>The nil event\<close>

text \<open>
  C8. On the nil event every field setter (\<^verbatim>\<open>Str\<close>, \<^verbatim>\<open>Int\<close>, \<^verbatim>\<open>Bool\<close>, \<^verbatim>\<open>Err\<close>,
  \<^verbatim>\<open>Any\<close>, \<^verbatim>\<open>Duration\<close>, \<^verbatim>\<open>Time\<close>, \<^verbatim>\<open>Hex\<close>) returns the nil event, so does every
  chain of them, and \<^verbatim>\<open>Msg\<close> does nothing at all: no panic, nothing written to the sink, no hook fired. The nil
  event is what the factory returns for a level below the logger's threshold.
\<close>

theorem nil_event_noop:
  "Event_Str None key s = None \<and> Event_Int None key i = None \<and> Event_Bool None key b = None
   \<and> Event_Err None err = None \<and> Event_Any None key v = None
   \<and> Event_Duration None key d = None \<and> Event_Time None key t = None
   \<and> Event_Hex None key bs = None
   \<and> chain None calls = None
   \<and> Event_Msg E h None msg = []
   \<and> written (Event_Msg E h None msg) = [] \<and> fired (Event_Msg E h None msg) = []
   \<and> EPanic \<notin> set (Event_Msg E h None msg)
   \<and> (l < length h \<and> lv <s level (h ! l) \<longrightarrow> Logger_newEvent h l lv now = Some None)"
  by (simp add: setter_defs chain_nil Event_Msg_def Logger_newEvent_def deref_def)

theorem nil_event_noop_witness:
  "(0 < length [sample_logger InfoLevel [] []]
      \<and> DebugLevel <s level ([sample_logger InfoLevel [] []] ! 0))
   \<and> Logger_newEvent [sample_logger InfoLevel [] []] 0 DebugLevel 7 = Some None
   \<and> Event_Str None ''a'' ''b'' = None
   \<and> Event_Msg sample_env [sample_logger InfoLevel [] []] None ''x'' = []"
  using nil_event_noop [of "''a''" "''b''" 0 False None VNil 0 0 "[]" "[]" sample_env
      "[sample_logger InfoLevel [] []]" "''x''" 0 DebugLevel 7]
  by (simp add: sample_logger_def Level_defs word_sless_alt)

section \<open>Serialization failure\<close>

lemma Msg_entry_unencodable:
  assumes "is_gomap (efields ev)" and "(k, v) \<in> set (efields ev)" and "\<not> encodable E v"
  shows "json_Marshal E (Msg_entry E lg ev msg) = Inl (json_error E (Msg_entry E lg ev msg))"
proof -
  from assms(1,2) have "map_of (Msg_entry E lg ev msg) k = Some v"
    by (simp add: Msg_entry_def map_of_copyInto_hit is_gomap_def)
  then have "(k, v) \<in> set (Msg_entry E lg ev msg)" by (rule map_of_SomeD)
  with assms(3) have "\<not> list_all (\<lambda>(k, v). encodable E v) (Msg_entry E lg ev msg)"
    by (force simp add: list_all_iff)
  then show ?thesis by (simp add: json_Marshal_def)
qed

text \<open>
  C7. When \<^verbatim>\<open>json.Marshal\<close> fails on the entry of an active event, \<^verbatim>\<open>Msg\<close> reports
  the error on standard error and does nothing else: nothing is written to the sink and
  no hook is fired. That is what happens whenever a field of the event holds a value
  that cannot be encoded.
\<close>

theorem marshal_failure_aborts:
  assumes "deref h (logger ev) = Some lg"
  shows "(json_Marshal E (Msg_entry E lg ev msg) = Inl err \<longrightarrow>
       Event_Msg E h (Some ev) msg = [EStderr (''Error marshaling log entry: '' @ err @ [CHR 0x0A])]
       \<and> written (Event_Msg E h (Some ev) msg) = []
       \<and> fired (Event_Msg E h (Some ev) msg) = [])
    \<and> (is_gomap (efields ev) \<and> (k, VChan) \<in> set (efields ev) \<longrightarrow>
       (\<exists>text. Event_Msg E h (Some ev) msg = [EStderr text])
       \<and> written (Event_Msg E h (Some ev) msg) = []
       \<and> fired (Event_Msg E h (Some ev) msg) = [])"
proof (intro conjI impI)
  assume f: "json_Marshal E (Msg_entry E lg ev msg) = Inl err"
  with assms show "Event_Msg E h (Some ev) msg = [EStderr (''Error marshaling log entry: '' @ err @ [CHR 0x0A])]"
    by (rule Event_Msg_marshal_error)
  then show "written (Event_Msg E h (Some ev) msg) = []" "fired (Event_Msg E h (Some ev) msg) = []"
    by simp_all
next
  assume "is_gomap (efields ev) \<and> (k, VChan) \<in> set (efields ev)"
  then have "json_Marshal E (Msg_entry E lg ev msg) = Inl (json_error E (Msg_entry E lg ev msg))"
    using Msg_entry_unencodable [of ev k VChan E lg msg] by simp
  with assms have t: "Event_Msg E h (Some ev) msg
      = [EStderr (''Error marshaling log entry: '' @ json_error E (Msg_entry E lg ev msg) @ [CHR 0x0A])]"
    by (rule Event_Msg_marshal_error)
  then show "\<exists>text. Event_Msg E h (Some ev) msg = [EStderr text]" by blast
  from t show "written (Event_Msg E h (Some ev) msg) = []" "fired (Event_Msg E h (Some ev) msg) = []"
    by simp_all
qed

theorem marshal_failure_aborts_witness:
  "deref [sample_logger DebugLevel [] [sample_hook 1 [InfoLevel]]]
       (logger \<lparr>logger = 0, elevel = InfoLevel, efields = [(''c'', VChan)], etime = 7\<rparr>)
     = Some (sample_logger DebugLevel [] [sample_hook 1 [InfoLevel]])
   \<and> json_Marshal sample_env (Msg_entry sample_env (sample_logger DebugLevel [] [sample_hook 1 [InfoLevel]])
        \<lparr>logger = 0, elevel = InfoLevel, efields = [(''c'', VChan)], etime = 7\<rparr> ''x'')
       = Inl ''json: unsupported type: chan int''
   \<and> is_gomap (efields \<lparr>logger = 0, elevel = InfoLevel, efields = [(''c'', VChan)], etime = 7\<rparr>)
   \<and> (''c'', VChan) \<in> set (efields \<lparr>logger = 0, elevel = InfoLevel, efields = [(''c'', VChan)], etime = 7\<rparr>)
   \<and> Event_Msg sample_env [sample_logger DebugLevel [] [sample_hook 1 [InfoLevel]]]
        (Some \<lparr>logger = 0, elevel = InfoLevel, efields = [(''c'', VChan)], etime = 7\<rparr>) ''x''
       = [EStderr (''Error marshaling log entry: json: unsupported type: chan int'' @ [CHR 0x0A])]
   \<and> fired (Event_Msg sample_env [sample_logger DebugLevel [] [sample_hook 1 [InfoLevel]]]
        (Some \<lparr>logger = 0, elevel = InfoLevel, efields = [(''c'', VChan)], etime = 7\<rparr>) ''x'') = []"
proof -
  let ?lg = "sample_logger DebugLevel [] [sample_hook 1 [InfoLevel]]"
  let ?ev = "\<lparr>logger = 0, elevel = InfoLevel, efields = [(''c'', VChan)], etime = 7\<rparr>"
  have a: "deref [?lg] (logger ?ev) = Some ?lg"
    by (simp add: deref_def)
  have b: "json_Marshal sample_env (Msg_entry sample_env ?lg ?ev ''x'') = Inl ''json: unsupported type: chan int''"
    by (simp add: json_Marshal_def Msg_entry_def sample_env_def)
  have c: "is_gomap (efields ?ev) \<and> (''c'', VChan) \<in> set (efields ?ev)"
    by (simp add: is_gomap_def)
  note t = marshal_failure_aborts [OF a, of sample_env "''x''" "''json: unsupported type: chan int''" "''c''"]
  from t b have d: "Event_Msg sample_env [?lg] (Some ?ev) ''x''
       = [EStderr (''Error marshaling log entry: '' @ ''json: unsupported type: chan int'' @ [CHR 0x0A])]"
    by blast
  from t c have e: "fired (Event_Msg sample_env [?lg] (Some ?ev) ''x'') = []" by blast
  from a b c d e show ?thesis by simp
qed

section \<open>Fatal\<close>

text \<open>
  C10. On a logger whose minimum level is above Fatal, \<^verbatim>\<open>Fatal()\<close> returns the nil
  event and the following \<^verbatim>\<open>Msg\<close> has no effect at all (no write, no hook, no exit); and
  whenever \<^verbatim>\<open>Msg\<close> reaches \<^verbatim>\<open>os.Exit\<close>, its event is active and of level Fatal.
\<close>

theorem fatal_exit_only_when_emitted:
  "(l < length h \<and> FatalLevel <s level (h ! l) \<longrightarrow>
      Logger_Fatal h l now = Some None
      \<and> (\<forall>e. Logger_Fatal h l now = Some e \<longrightarrow> Event_Msg E h e msg = []))
   \<and> (EExit n \<in> set (Event_Msg E h e' msg) \<longrightarrow> (\<exists>ev. e' = Some ev \<and> elevel ev = FatalLevel))"
  using Event_Msg_exit [of n E h e' msg]
  by (auto simp add: Logger_Fatal_def Logger_newEvent_def deref_def Event_Msg_nil)

theorem fatal_exit_only_when_emitted_witness:
  "(0 < length [sample_logger 5 [] []] \<and> FatalLevel <s level ([sample_logger 5 [] []] ! 0))
   \<and> Logger_Fatal [sample_logger 5 [] []] 0 7 = Some None
   \<and> Event_Msg sample_env [sample_logger 5 [] []] None ''x'' = []
   \<and> EExit 1 \<in> set (Event_Msg sample_env [sample_logger 5 [] []]
         (Some \<lparr>logger = 0, elevel = FatalLevel, efields = [], etime = 7\<rparr>) ''x'')
   \<and> (\<exists>ev. Some \<lparr>logger = 0, elevel = FatalLevel, efields = [], etime = 7\<rparr> = Some ev \<and> elevel ev = FatalLevel)"
proof -
  have a: "0 < length [sample_logger 5 [] []] \<and> FatalLevel <s level ([sample_logger 5 [] []] ! 0)"
    by (simp add: sample_logger_def Level_defs word_sless_alt)
  have b: "EExit 1 \<in> set (Event_Msg sample_env [sample_logger 5 [] []]
         (Some \<lparr>logger = 0, elevel = FatalLevel, efields = [], etime = 7\<rparr>) ''x'')"
    by (simp add: Event_Msg_def deref_def Msg_entry_def json_Marshal_def sample_env_def sample_logger_def)
  from fatal_exit_only_when_emitted [of 0 "[sample_logger 5 [] []]" 7 sample_env "''x''" 1
      "Some \<lparr>logger = 0, elevel = FatalLevel, efields = [], etime = 7\<rparr>"] a b
  show ?thesis by blast
qed

section \<open>Reserved keys\<close>

text \<open>
  C1 fails as stated: \<^verbatim>\<open>log.Info().Str("level", "hacked").Msg("x")\<close> emits an entry
  whose \<^verbatim>\<open>level\<close> is \<^verbatim>\<open>hacked\<close>, not \<^verbatim>\<open>info\<close>.
\<close>

theorem reserved_keys_counterexample:
  "Logger_Info [sample_logger DebugLevel [] [sample_hook 1 [InfoLevel]]] 0 7
     = Some (Some \<lparr>logger = 0, elevel = InfoLevel, efields = [], etime = 7\<rparr>)
   \<and> Event_Str (Some \<lparr>logger = 0, elevel = InfoLevel, efields = [], etime = 7\<rparr>) ''level'' ''hacked''
     = Some \<lparr>logger = 0, elevel = InfoLevel, efields = [(''level'', VString ''hacked'')], etime = 7\<rparr>
   \<and> Event_Msg sample_env [sample_logger DebugLevel [] [sample_hook 1 [InfoLevel]]]
       (Some \<lparr>logger = 0, elevel = InfoLevel, efields = [(''level'', VString ''hacked'')], etime = 7\<rparr>) ''x''
     = [EWrite (Sink 0) (''{}'' @ [CHR 0x0A]),
        EFire 1 [(''level'', VString ''hacked''), (''time'', VString ''T''), (''message'', VString ''x'')]]
   \<and> Level_String InfoLevel = ''info''"
  by (simp add: Logger_Info_def Logger_newEvent_def deref_def sample_logger_def sample_hook_def
      sample_env_def Level_defs word_sless_alt Event_Str_def Event_Msg_def Msg_entry_def
      json_Marshal_def Level_String_def levelNames_def)

text \<open>
  C1, as the code has it. \<^verbatim>\<open>Msg\<close> writes the three reserved keys first and copies the
  event's fields over them, so a field wins: every field of the event (set by a setter
  or inherited from the context) is in the entry with its own value, and \<^verbatim>\<open>level\<close>,
  \<^verbatim>\<open>time\<close> and \<^verbatim>\<open>message\<close> hold the level name, the formatted timestamp and the
  text exactly when the event has no field of that name.
\<close>

theorem fields_override_reserved_keys:
  assumes "is_gomap (efields ev)"
  shows "(\<forall>k v. map_of (efields ev) k = Some v \<longrightarrow> map_of (Msg_entry E lg ev msg) k = Some v)
    \<and> (map_of (efields ev) ''level'' = None \<longrightarrow>
         map_of (Msg_entry E lg ev msg) ''level'' = Some (VString (Level_String (elevel ev))))
    \<and> (map_of (efields ev) ''time'' = None \<longrightarrow>
         map_of (Msg_entry E lg ev msg) ''time'' = Some (VString (time_Format E (etime ev) (timeFormat lg))))
    \<and> (map_of (efields ev) ''message'' = None \<longrightarrow>
         map_of (Msg_entry E lg ev msg) ''message'' = Some (VString msg))"
  using assms by (simp add: Msg_entry_def map_of_copyInto)

theorem fields_override_reserved_keys_witness:
  "is_gomap (efields \<lparr>logger = 0, elevel = InfoLevel, efields = [(''level'', VString ''hacked'')], etime = 7\<rparr>)
   \<and> map_of (efields \<lparr>logger = 0, elevel = InfoLevel, efields = [(''level'', VString ''hacked'')], etime = 7\<rparr>) ''level''
       = Some (VString ''hacked'')
   \<and> map_of (efields \<lparr>logger = 0, elevel = InfoLevel, efields = [(''level'', VString ''hacked'')], etime = 7\<rparr>) ''message''
       = None
   \<and> map_of (Msg_entry sample_env (sample_logger DebugLevel [] [])
        \<lparr>logger = 0, elevel = InfoLevel, efields = [(''level'', VString ''hacked'')], etime = 7\<rparr> ''x'') ''level''
       = Some (VString ''hacked'')
   \<and> map_of (Msg_entry sample_env (sample_logger DebugLevel [] [])
        \<lparr>logger = 0, elevel = InfoLevel, efields = [(''level'', VString ''hacked'')], etime = 7\<rparr> ''x'') ''message''
       = Some (VString ''x'')"
proof -
  let ?ev = "\<lparr>logger = 0, elevel = InfoLevel, efields = [(''level'', VString ''hacked'')], etime = 7\<rparr>"
  have a: "is_gomap (efields ?ev)" by (simp add: is_gomap_def)
  have b: "map_of (efields ?ev) ''level'' = Some (VString ''hacked'')" by simp
  have c: "map_of (efields ?ev) ''message'' = None" by simp
  from fields_override_reserved_keys [OF a, of sample_env "sample_logger DebugLevel [] []" "''x''"] a b c
  show ?thesis by blast
qed

section \<open>Level filtering\<close>







text \<open>A time outside the years 0..9999 makes the entry unencodable as well.\<close>

lemma year_out_of_range_example:
  "written (Event_Msg sample_env [sample_logger DebugLevel [] []]
     (chain (Some \<lparr>logger = 0, elevel = InfoLevel, efields = [], etime = 7\<rparr>) [STime ''t'' 10000])
     ''x'') = []"
  by (simp add: chain_def Event_Time_def Event_Msg_def deref_def Msg_entry_def json_Marshal_def
      sample_env_def)

section \<open>Construction\<close>

text \<open>
  C2 fails as stated: \<^verbatim>\<open>New\<close> stores \<^verbatim>\<open>opts.Level\<close> as it is, so the zero value
  gives a logger at Debug, on which \<^verbatim>\<open>Debug().Msg\<close> writes a line.
\<close>

theorem New_default_level_counterexample:
  "New [] \<lparr>Writer = Some (Sink 0), Level = 0, TimeFormat = []\<rparr>
     = ([sample_logger DebugLevel [] []], 0)
   \<and> level (sample_logger DebugLevel [] []) \<noteq> InfoLevel
   \<and> Logger_Debug [sample_logger DebugLevel [] []] 0 7
     = Some (Some \<lparr>logger = 0, elevel = DebugLevel, efields = [], etime = 7\<rparr>)
   \<and> Event_Msg sample_env [sample_logger DebugLevel [] []]
        (Some \<lparr>logger = 0, elevel = DebugLevel, efields = [], etime = 7\<rparr>) ''x''
     = [EWrite (Sink 0) (''{}'' @ [CHR 0x0A])]"
  by (simp add: New_def sample_logger_def Level_defs Logger_Debug_def Logger_newEvent_def deref_def
      word_sless_alt Event_Msg_def Msg_entry_def json_Marshal_def sample_env_def)

text \<open>
  C2, as the code has it. For options whose level is the zero value, \<^verbatim>\<open>New\<close> builds a
  logger whose minimum level is Debug; on it both \<^verbatim>\<open>Debug().Msg(text)\<close> and
  \<^verbatim>\<open>Info().Msg(text)\<close> write one line. Info is the level of \<^verbatim>\<open>DefaultOptions\<close>.
\<close>

theorem New_keeps_zero_level:
  assumes "Level opts = 0"
  shows "\<exists>h' lg. New h opts = (h', length h) \<and> deref h' (length h) = Some lg
      \<and> Logger_GetLevel h' (length h) = Some DebugLevel
      \<and> Logger_Debug h' (length h) now
          = Some (Some \<lparr>logger = length h, elevel = DebugLevel, efields = [], etime = now\<rparr>)
      \<and> written (Event_Msg E h' (Some \<lparr>logger = length h, elevel = DebugLevel, efields = [], etime = now\<rparr>) msg)
          = [json_bytes E [(''level'', VString ''debug''),
                           (''time'', VString (time_Format E now (timeFormat lg))),
                           (''message'', VString msg)] @ [CHR 0x0A]]
      \<and> Logger_Info h' (length h) now
          = Some (Some \<lparr>logger = length h, elevel = InfoLevel, efields = [], etime = now\<rparr>)
      \<and> written (Event_Msg E h' (Some \<lparr>logger = length h, elevel = InfoLevel, efields = [], etime = now\<rparr>) msg)
          = [json_bytes E [(''level'', VString ''info''),
                           (''time'', VString (time_Format E now (timeFormat lg))),
                           (''message'', VString msg)] @ [CHR 0x0A]]
      \<and> Level DefaultOptions = InfoLevel"
proof -
  define lg where "lg = \<lparr>writer = (case Writer opts of None \<Rightarrow> os_Stdout | Some w \<Rightarrow> w),
      level = Level opts,
      timeFormat = (if TimeFormat opts = [] then time_RFC3339 else TimeFormat opts),
      contextFields = [], hooks = []\<rparr>"
  define h' where "h' = h @ [lg]"
  have n: "New h opts = (h', length h)" by (simp add: New_def Let_def h'_def lg_def)
  have d: "deref h' (length h) = Some lg" by (simp add: deref_def h'_def)
  from assms have lv: "level lg = DebugLevel" by (simp add: lg_def DebugLevel_def)
  have cf: "contextFields lg = []" by (simp add: lg_def)
  from d lv have g: "Logger_GetLevel h' (length h) = Some DebugLevel"
    by (simp add: Logger_GetLevel_def)
  from d lv cf have e1: "Logger_Debug h' (length h) now
          = Some (Some \<lparr>logger = length h, elevel = DebugLevel, efields = [], etime = now\<rparr>)"
    by (simp add: Logger_Debug_def Logger_newEvent_def)
  from d lv cf have e2: "Logger_Info h' (length h) now
          = Some (Some \<lparr>logger = length h, elevel = InfoLevel, efields = [], etime = now\<rparr>)"
    by (simp add: Logger_Info_def Logger_newEvent_def Level_defs word_sless_alt)
  from d have w1: "written (Event_Msg E h' (Some \<lparr>logger = length h, elevel = DebugLevel, efields = [], etime = now\<rparr>) msg)
          = [json_bytes E [(''level'', VString ''debug''),
                           (''time'', VString (time_Format E now (timeFormat lg))),
                           (''message'', VString msg)] @ [CHR 0x0A]]"
    using written_Event_Msg_emit [of h' "\<lparr>logger = length h, elevel = DebugLevel, efields = [], etime = now\<rparr>" lg E msg]
    by (simp add: reserved_entry_encodable Level_String_names)
  from d have w2: "written (Event_Msg E h' (Some \<lparr>logger = length h, elevel = InfoLevel, efields = [], etime = now\<rparr>) msg)
          = [json_bytes E [(''level'', VString ''info''),
                           (''time'', VString (time_Format E now (timeFormat lg))),
                           (''message'', VString msg)] @ [CHR 0x0A]]"
    using written_Event_Msg_emit [of h' "\<lparr>logger = length h, elevel = InfoLevel, efields = [], etime = now\<rparr>" lg E msg]
    by (simp add: reserved_entry_encodable Level_String_names)
  have "Level DefaultOptions = InfoLevel" by (simp add: DefaultOptions_def)
  with n d g e1 e2 w1 w2 show ?thesis by blast
qed

theorem New_keeps_zero_level_witness:
  "Level \<lparr>Writer = None, Level = 0, TimeFormat = []\<rparr> = 0
   \<and> New [] \<lparr>Writer = None, Level = 0, TimeFormat = []\<rparr>
     = ([\<lparr>writer = os_Stdout, level = 0, timeFormat = time_RFC3339, contextFields = [], hooks = []\<rparr>], 0)
   \<and> Logger_GetLevel
        [\<lparr>writer = os_Stdout, level = 0, timeFormat = time_RFC3339, contextFields = [], hooks = []\<rparr>] 0
     = Some DebugLevel
   \<and> written (Event_Msg sample_env
        [\<lparr>writer = os_Stdout, level = 0, timeFormat = time_RFC3339, contextFields = [], hooks = []\<rparr>]
        (Some \<lparr>logger = 0, elevel = DebugLevel, efields = [], etime = 7\<rparr>) ''x'')
     = [''{}'' @ [CHR 0x0A]]"
proof -
  let ?opts = "\<lparr>Writer = None, Level = 0, TimeFormat = []\<rparr>"
  let ?h = "[\<lparr>writer = os_Stdout, level = 0, timeFormat = time_RFC3339, contextFields = [], hooks = []\<rparr>]"
  have a: "Level ?opts = 0" by simp
  have n: "New [] ?opts = (?h, 0)" by (simp add: New_def)
  from New_keeps_zero_level [OF a, of "[]" 7 sample_env "''x''"]
  obtain h' lg where
    1: "New [] ?opts = (h', length ([] :: heap))"
    and 0: "deref h' (length ([] :: heap)) = Some lg"
    and 2: "Logger_GetLevel h' (length ([] :: heap)) = Some DebugLevel"
    and 3: "written (Event_Msg sample_env h'
        (Some \<lparr>logger = length ([] :: heap), elevel = DebugLevel, efields = [], etime = 7\<rparr>) ''x'')
      = [json_bytes sample_env [(''level'', VString ''debug''),
                           (''time'', VString (time_Format sample_env 7 (timeFormat lg))),
                           (''message'', VString ''x'')] @ [CHR 0x0A]]"
    by blast
  from 1 n have h': "h' = ?h" by simp
  from 2 h' have g: "Logger_GetLevel ?h 0 = Some DebugLevel" by simp
  from 3 h' have w: "written (Event_Msg sample_env ?h
        (Some \<lparr>logger = 0, elevel = DebugLevel, efields = [], etime = 7\<rparr>) ''x'') = [''{}'' @ [CHR 0x0A]]"
    by (simp add: sample_env_def)
  from a n g w show ?thesis by blast
qed

section \<open>Hook dispatch\<close>

lemma shouldFire_iff: "shouldFire lv ls \<longleftrightarrow> lv \<in> set ls"
  by (induction lv ls rule: shouldFire.induct) auto

lemma fired_fireHooks:
  "fired (fireHooks lv hs entry) = map hook_id (filter (\<lambda>hk. lv \<in> set (Levels hk)) hs)"
  by (induction lv hs entry rule: fireHooks.induct)
     (auto simp add: shouldFire_iff split: prod.splits option.splits)

lemma fired_Event_Msg_emit:
  assumes "deref h (logger ev) = Some lg"
    and "json_Marshal E (Msg_entry E lg ev msg) = Inr jsonData"
  shows "fired (Event_Msg E h (Some ev) msg)
     = map hook_id (filter (\<lambda>hk. elevel ev \<in> set (Levels hk)) (hooks lg))"
  using assms
  by (simp add: Event_Msg_emit fired_append fired_fireHooks split: option.splits)

lemma Msg_entry_hooks: "Msg_entry E (lg\<lparr>hooks := hs\<rparr>) ev msg = Msg_entry E lg ev msg"
  by (simp add: Msg_entry_def)

lemma removeFirst_Some:
  "removeFirst hook hs = Some hs' \<Longrightarrow>
     (\<exists>pre x post. hs = pre @ x # post \<and> Hook_eq x hook = Some True
        \<and> (\<forall>y \<in> set pre. Hook_eq y hook = Some False) \<and> hs' = pre @ post)
     \<or> ((\<forall>y \<in> set hs. Hook_eq y hook = Some False) \<and> hs' = hs)"
proof (induction hs arbitrary: hs')
  case Nil
  then show ?case by simp
next
  case (Cons a hs)
  show ?case
  proof (cases "Hook_eq a hook")
    case None
    with Cons.prems show ?thesis by simp
  next
    case (Some b)
    show ?thesis
    proof (cases b)
      case True
      with Some Cons.prems have "hs' = hs" by simp
      with Some True have "a # hs = [] @ a # hs \<and> Hook_eq a hook = Some True
          \<and> (\<forall>y \<in> set []. Hook_eq y hook = Some False) \<and> hs' = [] @ hs"
        by simp
      then show ?thesis by blast
    next
      case False
      with Some Cons.prems obtain hs1 where r: "removeFirst hook hs = Some hs1" and h': "hs' = a # hs1"
        by (auto split: option.splits)
      from Cons.IH [OF r] show ?thesis
      proof
        assume "\<exists>pre x post. hs = pre @ x # post \<and> Hook_eq x hook = Some True
            \<and> (\<forall>y \<in> set pre. Hook_eq y hook = Some False) \<and> hs1 = pre @ post"
        then obtain pre x post where p: "hs = pre @ x # post" "Hook_eq x hook = Some True"
            "\<forall>y \<in> set pre. Hook_eq y hook = Some False" "hs1 = pre @ post"
          by blast
        with Some False h' have "a # hs = (a # pre) @ x # post \<and> Hook_eq x hook = Some True
            \<and> (\<forall>y \<in> set (a # pre). Hook_eq y hook = Some False) \<and> hs' = (a # pre) @ post"
          by simp
        then show ?thesis by blast
      next
        assume "(\<forall>y \<in> set hs. Hook_eq y hook = Some False) \<and> hs1 = hs"
        with Some False h' show ?thesis by simp
      qed
    qed
  qed
qed

lemma removeFirst_None:
  "removeFirst hook hs = None \<longleftrightarrow>
     (\<exists>pre x post. hs = pre @ x # post \<and> Hook_eq x hook = None
        \<and> (\<forall>y \<in> set pre. Hook_eq y hook = Some False))"
proof (induction hs)
  case Nil
  then show ?case by simp
next
  case (Cons a hs)
  show ?case
  proof (cases "Hook_eq a hook")
    case None
    then have "a # hs = [] @ a # hs \<and> Hook_eq a hook = None
        \<and> (\<forall>y \<in> set []. Hook_eq y hook = Some False)" by simp
    then have "\<exists>pre x post. a # hs = pre @ x # post \<and> Hook_eq x hook = None
        \<and> (\<forall>y \<in> set pre. Hook_eq y hook = Some False)" by blast
    with None show ?thesis by simp
  next
    case (Some b)
    show ?thesis
    proof (cases b)
      case True
      have "\<not> (\<exists>pre x post. a # hs = pre @ x # post \<and> Hook_eq x hook = None
        \<and> (\<forall>y \<in> set pre. Hook_eq y hook = Some False))"
      proof
        assume "\<exists>pre x post. a # hs = pre @ x # post \<and> Hook_eq x hook = None
          \<and> (\<forall>y \<in> set pre. Hook_eq y hook = Some False)"
        then obtain pre x post where p: "a # hs = pre @ x # post" "Hook_eq x hook = None"
          "\<forall>y \<in> set pre. Hook_eq y hook = Some False" by blast
        with Some True show False by (cases pre) auto
      qed
      with Some True show ?thesis by simp
    next
      case False
      have iff: "(\<exists>pre x post. a # hs = pre @ x # post \<and> Hook_eq x hook = None
          \<and> (\<forall>y \<in> set pre. Hook_eq y hook = Some False))
        \<longleftrightarrow> (\<exists>pre x post. hs = pre @ x # post \<and> Hook_eq x hook = None
          \<and> (\<forall>y \<in> set pre. Hook_eq y hook = Some False))" (is "?L \<longleftrightarrow> ?R")
      proof
        assume ?L
        then obtain pre x post where p: "a # hs = pre @ x # post" "Hook_eq x hook = None"
          "\<forall>y \<in> set pre. Hook_eq y hook = Some False" by blast
        with Some False obtain pre' where "pre = a # pre'" by (cases pre) auto
        with p have "hs = pre' @ x # post \<and> Hook_eq x hook = None
          \<and> (\<forall>y \<in> set pre'. Hook_eq y hook = Some False)" by simp
        then show ?R by blast
      next
        assume ?R
        then obtain pre x post where p: "hs = pre @ x # post" "Hook_eq x hook = None"
          "\<forall>y \<in> set pre. Hook_eq y hook = Some False" by blast
        with Some False have "a # hs = (a # pre) @ x # post \<and> Hook_eq x hook = None
          \<and> (\<forall>y \<in> set (a # pre). Hook_eq y hook = Some False)" by simp
        then show ?L by blast
      qed
      from Some False have "removeFirst hook (a # hs) = None \<longleftrightarrow> removeFirst hook hs = None"
        by (simp split: option.splits)
      also have "\<dots> \<longleftrightarrow> ?R" by (rule Cons.IH)
      also have "\<dots> \<longleftrightarrow> ?L" by (rule iff [symmetric])
      finally show ?thesis .
    qed
  qed
qed

lemma removeFirst_once:
  assumes "removeFirst hook hs = Some hs'"
    and "length (filter (\<lambda>hk. hook_id hk = hook_id hook) hs) \<le> 1"
    and "\<forall>hk \<in> set hs. hook_id hk = hook_id hook \<longrightarrow> hook_type hk = hook_type hook"
  shows "hook_id hook \<notin> hook_id ` set hs'"
  using assms
proof (induction hs arbitrary: hs')
  case Nil
  then show ?case by simp
next
  case (Cons a hs)
  show ?case
  proof (cases "hook_id a = hook_id hook")
    case True
    with Cons.prems(3) have ty: "hook_type a = hook_type hook" by simp
    from True Cons.prems(2) have "filter (\<lambda>hk. hook_id hk = hook_id hook) hs = []" by simp
    then have nin: "hook_id hook \<notin> hook_id ` set hs" by (auto simp add: filter_empty_conv)
    from ty True Cons.prems(1) have "hs' = hs"
      by (auto simp add: Hook_eq_def split: if_splits)
    with nin show ?thesis by simp
  next
    case False
    then have "Hook_eq a hook = Some False \<or> Hook_eq a hook = None"
      by (auto simp add: Hook_eq_def)
    with Cons.prems(1) obtain hs1 where r: "removeFirst hook hs = Some hs1" and h': "hs' = a # hs1"
      by (auto split: option.splits)
    from False Cons.prems(2,3) have "hook_id hook \<notin> hook_id ` set hs1"
      using Cons.IH [OF r] by simp
    with False h' show ?thesis by auto
  qed
qed

lemma AddHook_heap:
  "deref h l = Some lg \<Longrightarrow>
     Logger_AddHook h l hook = Some (h[l := lg\<lparr>hooks := hooks lg @ [hook]\<rparr>], l)"
  by (simp add: Logger_AddHook_def)

lemma deref_update: "deref h l = Some lg \<Longrightarrow> deref (h[l := lg']) l = Some lg'"
  by (auto simp add: deref_def split: if_splits)

lemma fired_after_hooks_update:
  assumes "deref h (logger ev) = Some lg"
    and "json_Marshal E (Msg_entry E lg ev msg) = Inr jsonData"
  shows "fired (Event_Msg E (h[logger ev := lg\<lparr>hooks := hs\<rparr>]) (Some ev) msg)
     = map hook_id (filter (\<lambda>hk. elevel ev \<in> set (Levels hk)) hs)"
proof -
  from assms(1) have d: "deref (h[logger ev := lg\<lparr>hooks := hs\<rparr>]) (logger ev) = Some (lg\<lparr>hooks := hs\<rparr>)"
    by (rule deref_update)
  from assms(2) have m: "json_Marshal E (Msg_entry E (lg\<lparr>hooks := hs\<rparr>) ev msg) = Inr jsonData"
    by (simp add: Msg_entry_hooks)
  from fired_Event_Msg_emit [OF d m] show ?thesis by simp
qed

text \<open>
  C4 fails as stated: a hook may be registered twice, then it fires twice for an entry,
  and \<^verbatim>\<open>RemoveHook\<close> removes the first registration only, so the hook still fires for
  the next entry.
\<close>

theorem remove_hook_counterexample:
  "Logger_AddHook [sample_logger DebugLevel [] []] 0 (sample_hook 1 [InfoLevel])
     = Some ([sample_logger DebugLevel [] [sample_hook 1 [InfoLevel]]], 0)
   \<and> Logger_AddHook [sample_logger DebugLevel [] [sample_hook 1 [InfoLevel]]] 0 (sample_hook 1 [InfoLevel])
     = Some ([sample_logger DebugLevel [] [sample_hook 1 [InfoLevel], sample_hook 1 [InfoLevel]]], 0)
   \<and> fired (Event_Msg sample_env [sample_logger DebugLevel [] [sample_hook 1 [InfoLevel], sample_hook 1 [InfoLevel]]]
        (Some \<lparr>logger = 0, elevel = InfoLevel, efields = [], etime = 7\<rparr>) ''x'') = [1, 1]
   \<and> Logger_RemoveHook [sample_logger DebugLevel [] [sample_hook 1 [InfoLevel], sample_hook 1 [InfoLevel]]] 0
        (sample_hook 1 [InfoLevel])
     = Some ([sample_logger DebugLevel [] [sample_hook 1 [InfoLevel]]], 0)
   \<and> fired (Event_Msg sample_env [sample_logger DebugLevel [] [sample_hook 1 [InfoLevel]]]
        (Some \<lparr>logger = 0, elevel = InfoLevel, efields = [], etime = 8\<rparr>) ''y'') = [1]"
  by (simp add: Logger_AddHook_def Logger_RemoveHook_def deref_def sample_logger_def sample_hook_def
      sample_env_def Event_Msg_def Msg_entry_def json_Marshal_def Level_defs Let_def Hook_eq_def)

text \<open>
  C4, as the code has it. For an emitted entry, the hooks fired are, in the order of the
  hook list, exactly the registrations whose \<^verbatim>\<open>Levels()\<close> contain the entry's level,
  each fired once. \<^verbatim>\<open>AddHook\<close> puts the hook at the end of the list, so the order is
  that of registration: after it the same entry fires what it fired before and then the
  new hook. \<^verbatim>\<open>RemoveHook\<close> takes out the first registration equal to its argument and
  no other, leaves the list alone when there is none, and panics exactly when the first
  hook of the argument's dynamic type is met and that type is not comparable. A hook that
  is registered at most once (no other registered hook has its \<open>hook_id\<close>) is therefore,
  after \<^verbatim>\<open>RemoveHook\<close> has returned, not fired by an emission of that logger.
\<close>

theorem hook_dispatch:
  assumes "deref h (logger ev) = Some lg"
    and "json_Marshal E (Msg_entry E lg ev msg) = Inr jsonData"
  shows "fired (Event_Msg E h (Some ev) msg)
       = map hook_id (filter (\<lambda>hk. elevel ev \<in> set (Levels hk)) (hooks lg))
    \<and> (\<exists>h'. Logger_AddHook h (logger ev) hook = Some (h', logger ev)
          \<and> deref h' (logger ev) = Some (lg\<lparr>hooks := hooks lg @ [hook]\<rparr>)
          \<and> fired (Event_Msg E h' (Some ev) msg)
              = fired (Event_Msg E h (Some ev) msg)
                @ (if elevel ev \<in> set (Levels hook) then [hook_id hook] else []))
    \<and> (\<forall>h'. Logger_RemoveHook h (logger ev) hook = Some (h', logger ev) \<longrightarrow>
          (\<exists>hs'. deref h' (logger ev) = Some (lg\<lparr>hooks := hs'\<rparr>)
             \<and> ((\<exists>pre x post. hooks lg = pre @ x # post \<and> Hook_eq x hook = Some True
                    \<and> (\<forall>y \<in> set pre. Hook_eq y hook = Some False) \<and> hs' = pre @ post)
                  \<or> ((\<forall>y \<in> set (hooks lg). Hook_eq y hook = Some False) \<and> hs' = hooks lg))
             \<and> fired (Event_Msg E h' (Some ev) msg)
                 = map hook_id (filter (\<lambda>hk. elevel ev \<in> set (Levels hk)) hs')))
    \<and> (Logger_RemoveHook h (logger ev) hook = None \<longleftrightarrow>
          (\<exists>pre x post. hooks lg = pre @ x # post \<and> Hook_eq x hook = None
             \<and> (\<forall>y \<in> set pre. Hook_eq y hook = Some False)))
    \<and> (\<forall>h' ev' msg'.
          length (filter (\<lambda>hk. hook_id hk = hook_id hook) (hooks lg)) \<le> 1
          \<and> (\<forall>hk \<in> set (hooks lg). hook_id hk = hook_id hook \<longrightarrow> hook_type hk = hook_type hook)
          \<and> Logger_RemoveHook h (logger ev) hook = Some (h', logger ev)
          \<and> logger ev' = logger ev
          \<longrightarrow> hook_id hook \<notin> set (fired (Event_Msg E h' (Some ev') msg')))"
proof (intro conjI allI impI)
  from assms show f: "fired (Event_Msg E h (Some ev) msg)
       = map hook_id (filter (\<lambda>hk. elevel ev \<in> set (Levels hk)) (hooks lg))"
    by (rule fired_Event_Msg_emit)
  let ?h' = "h[logger ev := lg\<lparr>hooks := hooks lg @ [hook]\<rparr>]"
  from assms(1) have a: "Logger_AddHook h (logger ev) hook = Some (?h', logger ev)"
    by (rule AddHook_heap)
  from assms(1) have d: "deref ?h' (logger ev) = Some (lg\<lparr>hooks := hooks lg @ [hook]\<rparr>)"
    by (rule deref_update)
  from fired_after_hooks_update [OF assms, of "hooks lg @ [hook]"] f
  have "fired (Event_Msg E ?h' (Some ev) msg)
      = fired (Event_Msg E h (Some ev) msg)
        @ (if elevel ev \<in> set (Levels hook) then [hook_id hook] else [])"
    by simp
  with a d show "\<exists>h'. Logger_AddHook h (logger ev) hook = Some (h', logger ev)
          \<and> deref h' (logger ev) = Some (lg\<lparr>hooks := hooks lg @ [hook]\<rparr>)
          \<and> fired (Event_Msg E h' (Some ev) msg)
              = fired (Event_Msg E h (Some ev) msg)
                @ (if elevel ev \<in> set (Levels hook) then [hook_id hook] else [])"
    by blast
next
  fix h' :: heap
  assume r: "Logger_RemoveHook h (logger ev) hook = Some (h', logger ev)"
  with assms(1) obtain hs' where rf: "removeFirst hook (hooks lg) = Some hs'"
    and h': "h' = h[logger ev := lg\<lparr>hooks := hs'\<rparr>]"
    by (auto simp add: Logger_RemoveHook_def split: option.splits)
  from assms(1) h' have d: "deref h' (logger ev) = Some (lg\<lparr>hooks := hs'\<rparr>)"
    by (simp add: deref_update)
  from fired_after_hooks_update [OF assms, of hs'] h'
  have f: "fired (Event_Msg E h' (Some ev) msg)
      = map hook_id (filter (\<lambda>hk. elevel ev \<in> set (Levels hk)) hs')" by simp
  from removeFirst_Some [OF rf] d f
  show "\<exists>hs'. deref h' (logger ev) = Some (lg\<lparr>hooks := hs'\<rparr>)
             \<and> ((\<exists>pre x post. hooks lg = pre @ x # post \<and> Hook_eq x hook = Some True
                    \<and> (\<forall>y \<in> set pre. Hook_eq y hook = Some False) \<and> hs' = pre @ post)
                  \<or> ((\<forall>y \<in> set (hooks lg). Hook_eq y hook = Some False) \<and> hs' = hooks lg))
             \<and> fired (Event_Msg E h' (Some ev) msg)
                 = map hook_id (filter (\<lambda>hk. elevel ev \<in> set (Levels hk)) hs')"
    by blast
next
  from assms(1) have "Logger_RemoveHook h (logger ev) hook = None \<longleftrightarrow> removeFirst hook (hooks lg) = None"
    by (simp add: Logger_RemoveHook_def split: option.splits)
  then show "Logger_RemoveHook h (logger ev) hook = None \<longleftrightarrow>
          (\<exists>pre x post. hooks lg = pre @ x # post \<and> Hook_eq x hook = None
             \<and> (\<forall>y \<in> set pre. Hook_eq y hook = Some False))"
    by (simp only: removeFirst_None)
next
  fix h' :: heap and ev' :: Event and msg' :: string
  assume a: "length (filter (\<lambda>hk. hook_id hk = hook_id hook) (hooks lg)) \<le> 1
          \<and> (\<forall>hk \<in> set (hooks lg). hook_id hk = hook_id hook \<longrightarrow> hook_type hk = hook_type hook)
          \<and> Logger_RemoveHook h (logger ev) hook = Some (h', logger ev)
          \<and> logger ev' = logger ev"
  with assms(1) obtain hs' where rf: "removeFirst hook (hooks lg) = Some hs'"
    and h': "h' = h[logger ev := lg\<lparr>hooks := hs'\<rparr>]"
    by (auto simp add: Logger_RemoveHook_def split: option.splits)
  let ?lg' = "lg\<lparr>hooks := hs'\<rparr>"
  from assms(1) h' a have d: "deref h' (logger ev') = Some ?lg'" by (simp add: deref_update)
  from rf a have nin: "hook_id hook \<notin> hook_id ` set (hooks ?lg')"
    using removeFirst_once [of hook "hooks lg" hs'] by simp
  show "hook_id hook \<notin> set (fired (Event_Msg E h' (Some ev') msg'))"
  proof (cases "json_Marshal E (Msg_entry E ?lg' ev' msg')")
    case (Inl err)
    with d show ?thesis by (simp add: Event_Msg_marshal_error)
  next
    case (Inr data)
    with d have "fired (Event_Msg E h' (Some ev') msg')
       = map hook_id (filter (\<lambda>hk. elevel ev' \<in> set (Levels hk)) (hooks ?lg'))"
      by (rule fired_Event_Msg_emit)
    with nin show ?thesis by auto
  qed
qed

theorem hook_dispatch_witness:
  "deref [sample_logger DebugLevel [] sample_hooks]
       (logger \<lparr>logger = 0, elevel = InfoLevel, efields = [], etime = 7\<rparr>)
     = Some (sample_logger DebugLevel [] sample_hooks)
   \<and> json_Marshal sample_env (Msg_entry sample_env (sample_logger DebugLevel [] sample_hooks)
        \<lparr>logger = 0, elevel = InfoLevel, efields = [], etime = 7\<rparr> ''x'') = Inr ''{}''
   \<and> fired (Event_Msg sample_env [sample_logger DebugLevel [] sample_hooks]
        (Some \<lparr>logger = 0, elevel = InfoLevel, efields = [], etime = 7\<rparr>) ''x'') = [1, 3]
   \<and> Logger_AddHook [sample_logger DebugLevel [] sample_hooks] 0 (sample_hook 4 [InfoLevel])
     = Some ([sample_logger DebugLevel [] (sample_hooks @ [sample_hook 4 [InfoLevel]])], 0)
   \<and> fired (Event_Msg sample_env [sample_logger DebugLevel [] (sample_hooks @ [sample_hook 4 [InfoLevel]])]
        (Some \<lparr>logger = 0, elevel = InfoLevel, efields = [], etime = 7\<rparr>) ''x'') = [1, 3, 4]
   \<and> length (filter (\<lambda>hk. hook_id hk = hook_id (sample_hook 1 [InfoLevel]))
        (hooks (sample_logger DebugLevel [] sample_hooks))) \<le> 1
   \<and> Logger_RemoveHook [sample_logger DebugLevel [] sample_hooks] 0 (sample_hook 1 [InfoLevel])
     = Some ([sample_logger DebugLevel [] (tl sample_hooks)], 0)
   \<and> fired (Event_Msg sample_env [sample_logger DebugLevel [] (tl sample_hooks)]
        (Some \<lparr>logger = 0, elevel = InfoLevel, efields = [], etime = 7\<rparr>) ''x'') = [3]
   \<and> 1 \<notin> set (fired (Event_Msg sample_env [sample_logger DebugLevel [] (tl sample_hooks)]
        (Some \<lparr>logger = 0, elevel = InfoLevel, efields = [], etime = 8\<rparr>) ''y''))
   \<and> Hook_eq (sample_struct_hook 5 [InfoLevel]) (sample_struct_hook 6 [InfoLevel]) = None
   \<and> Logger_RemoveHook
        [sample_logger DebugLevel [] [sample_hook 1 [InfoLevel], sample_struct_hook 5 [InfoLevel]]] 0
        (sample_struct_hook 6 [InfoLevel]) = None"
proof -
  let ?lg = "sample_logger DebugLevel [] sample_hooks"
  let ?h = "[?lg]"
  let ?ev = "\<lparr>logger = 0, elevel = InfoLevel, efields = [], etime = 7\<rparr>"
  let ?ev' = "\<lparr>logger = 0, elevel = InfoLevel, efields = [], etime = 8\<rparr>"
  let ?h4 = "[sample_logger DebugLevel [] (sample_hooks @ [sample_hook 4 [InfoLevel]])]"
  let ?h1 = "[sample_logger DebugLevel [] (tl sample_hooks)]"
  let ?lgs = "sample_logger DebugLevel [] [sample_hook 1 [InfoLevel], sample_struct_hook 5 [InfoLevel]]"
  have a: "deref ?h (logger ?ev) = Some ?lg"
    by (simp add: deref_def)
  have b: "json_Marshal sample_env (Msg_entry sample_env ?lg ?ev ''x'') = Inr ''{}''"
    by (simp add: json_Marshal_def Msg_entry_def sample_env_def)
  have f: "map hook_id (filter (\<lambda>hk. elevel ?ev \<in> set (Levels hk)) (hooks ?lg)) = [1, 3]"
    by (simp add: sample_logger_def sample_hooks_def sample_hook_def Level_defs)
  note t4 = hook_dispatch [OF a b, of "sample_hook 4 [InfoLevel]"]
  note t1 = hook_dispatch [OF a b, of "sample_hook 1 [InfoLevel]"]
  from t4 f have g: "fired (Event_Msg sample_env ?h (Some ?ev) ''x'') = [1, 3]" by simp
  have add: "Logger_AddHook ?h 0 (sample_hook 4 [InfoLevel]) = Some (?h4, 0)"
    by (simp add: Logger_AddHook_def deref_def sample_logger_def)
  from t4 obtain h' where "Logger_AddHook ?h (logger ?ev) (sample_hook 4 [InfoLevel]) = Some (h', logger ?ev)"
    and f4: "fired (Event_Msg sample_env h' (Some ?ev) ''x'')
       = fired (Event_Msg sample_env ?h (Some ?ev) ''x'')
         @ (if elevel ?ev \<in> set (Levels (sample_hook 4 [InfoLevel])) then [hook_id (sample_hook 4 [InfoLevel])] else [])"
    by blast
  with add have "h' = ?h4" by simp
  with f4 g have g4: "fired (Event_Msg sample_env ?h4 (Some ?ev) ''x'') = [1, 3, 4]"
    by (simp add: sample_hook_def)
  have c: "length (filter (\<lambda>hk. hook_id hk = hook_id (sample_hook 1 [InfoLevel])) (hooks ?lg)) \<le> 1"
    by (simp add: sample_logger_def sample_hooks_def sample_hook_def)
  have ct: "\<forall>hk \<in> set (hooks ?lg). hook_id hk = hook_id (sample_hook 1 [InfoLevel])
      \<longrightarrow> hook_type hk = hook_type (sample_hook 1 [InfoLevel])"
    by (simp add: sample_logger_def sample_hooks_def sample_hook_def)
  have rm: "Logger_RemoveHook ?h (logger ?ev) (sample_hook 1 [InfoLevel]) = Some (?h1, logger ?ev)"
    by (simp add: Logger_RemoveHook_def deref_def sample_logger_def sample_hooks_def sample_hook_def
        Hook_eq_def)
  have e: "logger ?ev' = logger ?ev" by simp
  from t1 rm obtain hs' where d1: "deref ?h1 (logger ?ev) = Some (?lg\<lparr>hooks := hs'\<rparr>)"
    and f1: "fired (Event_Msg sample_env ?h1 (Some ?ev) ''x'')
       = map hook_id (filter (\<lambda>hk. elevel ?ev \<in> set (Levels hk)) hs')"
    by blast
  from d1 have "hs' = tl sample_hooks" by (simp add: deref_def sample_logger_def)
  with f1 have g1: "fired (Event_Msg sample_env ?h1 (Some ?ev) ''x'') = [3]"
    by (simp add: sample_hooks_def sample_hook_def Level_defs)
  from t1 c ct rm e have "hook_id (sample_hook 1 [InfoLevel])
      \<notin> set (fired (Event_Msg sample_env ?h1 (Some ?ev') ''y''))"
    by blast
  then have i: "1 \<notin> set (fired (Event_Msg sample_env ?h1 (Some ?ev') ''y''))"
    by (simp add: sample_hook_def)
  have as: "deref [?lgs] (logger ?ev) = Some ?lgs" by (simp add: deref_def)
  have bs: "json_Marshal sample_env (Msg_entry sample_env ?lgs ?ev ''x'') = Inr ''{}''"
    by (simp add: json_Marshal_def Msg_entry_def sample_env_def)
  have p: "Hook_eq (sample_struct_hook 5 [InfoLevel]) (sample_struct_hook 6 [InfoLevel]) = None"
    by (simp add: Hook_eq_def sample_struct_hook_def)
  have "hooks ?lgs = [sample_hook 1 [InfoLevel]] @ sample_struct_hook 5 [InfoLevel] # []
      \<and> Hook_eq (sample_struct_hook 5 [InfoLevel]) (sample_struct_hook 6 [InfoLevel]) = None
      \<and> (\<forall>y \<in> set [sample_hook 1 [InfoLevel]]. Hook_eq y (sample_struct_hook 6 [InfoLevel]) = Some False)"
    by (simp add: sample_logger_def Hook_eq_def sample_struct_hook_def sample_hook_def)
  then have ex: "\<exists>pre x post. hooks ?lgs = pre @ x # post
      \<and> Hook_eq x (sample_struct_hook 6 [InfoLevel]) = None
      \<and> (\<forall>y \<in> set pre. Hook_eq y (sample_struct_hook 6 [InfoLevel]) = Some False)"
    by blast
  from hook_dispatch [OF as bs, of "sample_struct_hook 6 [InfoLevel]"] ex
  have "Logger_RemoveHook [?lgs] (logger ?ev) (sample_struct_hook 6 [InfoLevel]) = None"
    by blast
  then have pn: "Logger_RemoveHook [?lgs] 0 (sample_struct_hook 6 [InfoLevel]) = None" by simp
  from rm have rm0: "Logger_RemoveHook ?h 0 (sample_hook 1 [InfoLevel]) = Some (?h1, 0)" by simp
  from a b g add g4 c rm0 g1 i p pn show ?thesis by blast
qed

section \<open>Derived loggers\<close>




section \<open>The subject of a NatsHook\<close>
















text \<open>
  A key may itself contain braces: with a field named \<^verbatim>\<open>level}.{component\<close> visited
  first, the README template resolves to something else.
\<close>

lemma brace_key_example:
  "substitute ''logs.{level}.{component}''
     [(''level}.{component'', VString ''zzz''), (''level'', VString ''info''),
      (''component'', VString ''api'')] = ''logs.zzz''"
  by (simp add: strings_Replace_def)



end
